theory Spec2Isabelle
  imports Main "HOL-Library.Sublist"
begin

section \<open>Python values\<close>

text \<open>
  The tools of \<^verbatim>\<open>src/graph_nodes.py\<close> exchange untyped Python values: documents and
  result records are dictionaries whose values are strings, nested dictionaries, lists
  or \<^verbatim>\<open>None\<close>. A dictionary is an association list read with \<open>map_of\<close>; an object is
  the association list of its attributes.
\<close>

datatype pyval =
    PNone
  | PBool bool
  | PInt int
  | PStr string
  | PList "pyval list"
  | PDict "(string \<times> pyval) list"
  | PObj "(string \<times> pyval) list"

type_synonym pydict = "(string \<times> pyval) list"

datatype error =
    AttributeError
  | TypeError
  | KeyError
  | ValueError
  | GraphRecursionError
  | StopIteration
  | BackendError string

text \<open>Python truthiness, as used by \<^verbatim>\<open>if x:\<close>, \<^verbatim>\<open>not x\<close> and \<^verbatim>\<open>x or y\<close>.\<close>

fun truthy :: "pyval \<Rightarrow> bool" where
  "truthy PNone = False"
| "truthy (PBool b) = b"
| "truthy (PInt i) = (i \<noteq> 0)"
| "truthy (PStr s) = (s \<noteq> [])"
| "truthy (PList xs) = (xs \<noteq> [])"
| "truthy (PDict d) = (d \<noteq> [])"
| "truthy (PObj a) = True"

definition py_or :: "pyval \<Rightarrow> pyval \<Rightarrow> pyval" where
  "py_or a b = (if truthy a then a else b)"

text \<open>\<^verbatim>\<open>d.get(key, default)\<close>; \<^verbatim>\<open>d.get(key)\<close> is \<open>dict_get d key PNone\<close>.\<close>

definition dict_get :: "pydict \<Rightarrow> string \<Rightarrow> pyval \<Rightarrow> pyval" where
  "dict_get d k dflt = (case map_of d k of Some v \<Rightarrow> v | None \<Rightarrow> dflt)"

text \<open>\<^verbatim>\<open>sep.join(xs)\<close> raises \<^verbatim>\<open>TypeError\<close> on an item that is not a string.\<close>

fun py_join :: "string \<Rightarrow> pyval list \<Rightarrow> error + string" where
  "py_join sep [] = Inr []"
| "py_join sep [PStr s] = Inr s"
| "py_join sep (PStr s # x # xs) =
     (case py_join sep (x # xs) of Inl e \<Rightarrow> Inl e | Inr r \<Rightarrow> Inr (s @ sep @ r))"
| "py_join sep (_ # xs) = Inl TypeError"

section \<open>Quality-control tools (\<^verbatim>\<open>src/graph_nodes.py\<close>)\<close>

text \<open>
  A grader chain is an opaque call to the language model: \<open>invoke\<close> either raises or
  yields an object whose \<^verbatim>\<open>binary_score\<close> is read. The model returns that score, or the
  error. An absent grader is \<open>None\<close>.
\<close>

type_synonym relevance_grader = "string \<Rightarrow> pyval \<Rightarrow> error + string"
type_synonym answer_grader = "string \<Rightarrow> string \<Rightarrow> error + string"

text \<open>\<^verbatim>\<open>d.get("content", "") or d.get("page_content", "")\<close>\<close>

definition doc_text :: "pydict \<Rightarrow> pyval" where
  "doc_text d = py_or (dict_get d ''content'' (PStr [])) (dict_get d ''page_content'' (PStr []))"

text \<open>
  The loop of \<^verbatim>\<open>grade_documents_tool\<close>. Besides the filtered list it returns the
  arguments of every \<^verbatim>\<open>relevance_grader.invoke\<close> call it made, in order: the call is
  the loop's only effect.
\<close>

fun grade_loop :: "relevance_grader \<Rightarrow> string \<Rightarrow> pydict list \<Rightarrow>
    pydict list \<times> (string \<times> pyval) list" where
  "grade_loop g question [] = ([], [])"
| "grade_loop g question (d # ds) =
     (let content = doc_text d;
          (filtered, calls) = grade_loop g question ds
      in if truthy content then
           (case g question content of
              Inr score \<Rightarrow>
                (if score = ''yes'' then d # filtered else filtered, (question, content) # calls)
            | Inl doc_error \<Rightarrow> (d # filtered, (question, content) # calls))
         else (filtered, calls))"

definition grade_documents_tool :: "pydict list \<Rightarrow> string \<Rightarrow> relevance_grader option \<Rightarrow> pydict list" where
  "grade_documents_tool documents question relevance_grader =
     (case relevance_grader of
        None \<Rightarrow> documents
      | Some g \<Rightarrow> if documents = [] then documents else fst (grade_loop g question documents))"

definition grader_invocations :: "pydict list \<Rightarrow> string \<Rightarrow> relevance_grader option \<Rightarrow> (string \<times> pyval) list" where
  "grader_invocations documents question relevance_grader =
     (case relevance_grader of
        None \<Rightarrow> []
      | Some g \<Rightarrow> if documents = [] then [] else snd (grade_loop g question documents))"

text \<open>
  \<^verbatim>\<open>doc_context\<close> of \<^verbatim>\<open>grade_answer_tool\<close>: the non-empty document texts joined by a
  blank line.
\<close>

definition doc_context :: "pydict list \<Rightarrow> error + string" where
  "doc_context documents =
     py_join [CHR 0x0A, CHR 0x0A] (filter truthy (map doc_text documents))"

definition grade_answer_tool :: "string \<Rightarrow> pydict list \<Rightarrow> string \<Rightarrow>
    answer_grader option \<Rightarrow> answer_grader option \<Rightarrow> string" where
  "grade_answer_tool generation documents question hallucination_grader usefulness_grader =
     (case (hallucination_grader, usefulness_grader) of
        (Some h, Some u) \<Rightarrow>
          (case doc_context documents of
             Inl e \<Rightarrow> ''utile''
           | Inr ctx \<Rightarrow>
               (case h ctx generation of
                  Inl e \<Rightarrow> ''utile''
                | Inr hallucination_grade \<Rightarrow>
                    if hallucination_grade = ''no'' then ''non supportato''
                    else (case u question generation of
                            Inl e \<Rightarrow> ''utile''
                          | Inr usefulness_grade \<Rightarrow>
                              if usefulness_grade = ''no'' then ''non utile'' else ''utile'')))
      | _ \<Rightarrow> ''utile'')"

section \<open>Retrieval tools (\<^verbatim>\<open>src/graph_nodes.py\<close>)\<close>

text \<open>
  \<^verbatim>\<open>try: body except Exception as e: handler\<close>. A body that raises is \<open>Inl\<close>; the handler
  may itself raise.
\<close>

definition try_except :: "error + 'a \<Rightarrow> (error \<Rightarrow> error + 'a) \<Rightarrow> error + 'a" where
  "try_except body handler = (case body of Inl e \<Rightarrow> handler e | Inr v \<Rightarrow> Inr v)"

text \<open>
  The backends are opaque services. A vector store answers
  \<^verbatim>\<open>similarity_search(query, k=...)\<close> with matches (\<^verbatim>\<open>page_content\<close>, \<^verbatim>\<open>metadata\<close>); a
  graph store answers \<^verbatim>\<open>query(cypher, params=...)\<close> with records; the web-search client
  answers \<^verbatim>\<open>search(query=..., max_results=..., search_depth=...)\<close> with a dictionary; the
  query chain answers \<^verbatim>\<open>invoke({"query": ...})\<close> with a value. Each of them may raise.
  A backend that is not configured is \<open>None\<close>.
\<close>

record match =
  page_content :: string
  metadata :: pydict

text \<open>
  The two Cypher texts the tools send, each ending in \<^verbatim>\<open>LIMIT 5\<close>:
  \<^item> \<open>RelatedContextQuery\<close>:
    \<^verbatim>\<open>MATCH (d:Document)-[r]-(related) WHERE d.id = $doc_id OR d.source = $doc_id
    RETURN d.name as document_name, collect(DISTINCT related.name) as related_entities,
    collect(DISTINCT labels(related)[0]) as entity_types LIMIT 5\<close>
  \<^item> \<open>EntityFallbackQuery\<close>:
    \<^verbatim>\<open>MATCH (e) WHERE toLower(e.name) CONTAINS toLower($query)
    OR toLower(e.description) CONTAINS toLower($query)
    RETURN e.type as type, e.name as name, e.description as description LIMIT 5\<close>
\<close>

datatype cypher_query = RelatedContextQuery | EntityFallbackQuery

fun cypher_limit :: "cypher_query \<Rightarrow> nat" where
  "cypher_limit RelatedContextQuery = 5"
| "cypher_limit EntityFallbackQuery = 5"

type_synonym vector_store = "string \<Rightarrow> nat \<Rightarrow> error + match list"
type_synonym graph_store = "cypher_query \<Rightarrow> pydict \<Rightarrow> error + pydict list"
type_synonym query_chain = "string \<Rightarrow> error + pyval"
type_synonym search_client = "string \<Rightarrow> nat \<Rightarrow> string \<Rightarrow> error + pydict"

text \<open>The body of the \<^verbatim>\<open>for doc in results\<close> loop of \<^verbatim>\<open>hybrid_search_tool\<close>.\<close>

definition enhance_doc :: "graph_store option \<Rightarrow> match \<Rightarrow> pydict" where
  "enhance_doc graph doc =
     (let enhanced_doc = [(''content'', PStr (page_content doc)), (''metadata'', PDict (metadata doc))]
      in case graph of
           None \<Rightarrow> enhanced_doc
         | Some g \<Rightarrow>
             (let doc_id = py_or (dict_get (metadata doc) ''id'' PNone)
                                 (dict_get (metadata doc) ''source'' (PStr []))
              in if truthy doc_id then
                   (case g RelatedContextQuery [(''doc_id'', doc_id)] of
                      Inl graph_error \<Rightarrow> enhanced_doc
                    | Inr [] \<Rightarrow> enhanced_doc
                    | Inr (related # _) \<Rightarrow> enhanced_doc @ [(''related_context'', PDict related)])
                 else enhanced_doc))"

definition hybrid_search_tool :: "vector_store option \<Rightarrow> graph_store option \<Rightarrow> string \<Rightarrow>
    error + pydict list" where
  "hybrid_search_tool vector_store graph query =
     (case vector_store of
        None \<Rightarrow> Inr []
      | Some vs \<Rightarrow>
          try_except
            (case vs query 3 of
               Inl e \<Rightarrow> Inl e
             | Inr results \<Rightarrow> Inr (map (enhance_doc graph) results))
            (\<lambda>e. Inr []))"

definition structured_query_tool :: "query_chain option \<Rightarrow> graph_store option \<Rightarrow> string \<Rightarrow>
    error + pydict list" where
  "structured_query_tool graph_qa_chain graph query =
     (if graph_qa_chain = None \<and> graph = None then Inr []
      else
        try_except
          (try_except
             (case graph_qa_chain of
                None \<Rightarrow> Inl AttributeError
              | Some chain \<Rightarrow>
                  (case chain query of
                     Inl e \<Rightarrow> Inl e
                   | Inr result \<Rightarrow> Inr [[(''question'', PStr query), (''result'', result)]]))
             (\<lambda>e. case graph of
                     None \<Rightarrow> Inr []
                   | Some g \<Rightarrow>
                       (case g EntityFallbackQuery [(''query'', PStr query)] of
                          Inl e' \<Rightarrow> Inl e'
                        | Inr results \<Rightarrow> Inr results)))
          (\<lambda>e. Inr []))"

text \<open>
  The loop of \<^verbatim>\<open>web_search_tool\<close> over \<^verbatim>\<open>search_results["results"]\<close>: \<^verbatim>\<open>result.get\<close>
  exists on dictionaries only.
\<close>

fun web_results :: "pyval list \<Rightarrow> error + pydict list" where
  "web_results [] = Inr []"
| "web_results (PDict result # rest) =
     (case web_results rest of
        Inl e \<Rightarrow> Inl e
      | Inr out \<Rightarrow>
          Inr ([(''content'', dict_get result ''content'' (PStr [])),
                (''url'', dict_get result ''url'' (PStr [])),
                (''title'', dict_get result ''title'' (PStr []))] # out))"
| "web_results (_ # rest) = Inl AttributeError"

text \<open>Iterating a value: a list yields its items, a string its characters, a dictionary its keys.\<close>

fun py_iter :: "pyval \<Rightarrow> error + pyval list" where
  "py_iter (PList xs) = Inr xs"
| "py_iter (PStr s) = Inr (map (\<lambda>c. PStr [c]) s)"
| "py_iter (PDict d) = Inr (map (\<lambda>(k, v). PStr k) d)"
| "py_iter _ = Inl TypeError"

definition web_search_tool :: "search_client option \<Rightarrow> string \<Rightarrow> error + pydict list" where
  "web_search_tool tavily_client query =
     (case tavily_client of
        None \<Rightarrow> Inr []
      | Some client \<Rightarrow>
          try_except
            (case client query 3 ''advanced'' of
               Inl e \<Rightarrow> Inl e
             | Inr search_results \<Rightarrow>
                 (case map_of search_results ''results'' of
                    None \<Rightarrow> Inr []
                  | Some rs \<Rightarrow>
                      (case py_iter rs of Inl e \<Rightarrow> Inl e | Inr items \<Rightarrow> web_results items)))
            (\<lambda>e. Inr []))"

section \<open>The agent loop (\<^verbatim>\<open>src/graph_state.py\<close>, \<^verbatim>\<open>GraphRAGChatbot.build_workflow\<close>)\<close>

text \<open>
  A message of the conversation: the user's question, an assistant turn with its
  tool-call requests, or a tool result carrying the identifier of the request it answers.
\<close>

record tool_call =
  tool_name :: string
  tool_args :: pydict
  call_id :: string

datatype message =
    HumanMessage string
  | AIMessage string "tool_call list"
  | ToolMessage string string

fun content :: "message \<Rightarrow> string" where
  "content (HumanMessage c) = c"
| "content (AIMessage c tcs) = c"
| "content (ToolMessage c cid) = c"

fun tool_calls :: "message \<Rightarrow> tool_call list" where
  "tool_calls (AIMessage c tcs) = tcs"
| "tool_calls _ = []"

text \<open>
  The language model bound to the tools, \<^verbatim>\<open>llm_with_tools.invoke(state["messages"])\<close>: an
  opaque function of the history that raises or answers with a message. The tool
  executor gives the content of the result message for one request.
\<close>

type_synonym llm = "message list \<Rightarrow> error + message"
type_synonym tool_exec = "tool_call \<Rightarrow> string"

text \<open>
  Modelled from the spec: the reducer \<^verbatim>\<open>add_messages\<close> of the graph library, which
  \<^verbatim>\<open>AgentState\<close> attaches to \<^verbatim>\<open>messages\<close>; its docstring in \<^verbatim>\<open>graph_state.py\<close> reads
  "appends new messages to the existing list".
\<close>

definition add_messages :: "message list \<Rightarrow> message list \<Rightarrow> message list" where
  "add_messages left right = left @ right"

text \<open>\<^verbatim>\<open>agent_node\<close>: the state update \<^verbatim>\<open>{"messages": [response]}\<close>.\<close>

definition agent_node :: "llm \<Rightarrow> message list \<Rightarrow> error + message list" where
  "agent_node llm_with_tools messages =
     (case llm_with_tools messages of Inl e \<Rightarrow> Inl e | Inr response \<Rightarrow> Inr [response])"

text \<open>
  Modelled from the spec: the library's \<^verbatim>\<open>ToolNode\<close>, the Tool-Execution Node. It executes
  every tool-call request of the triggering assistant message, the last one of the
  history, and answers each with a result message correlated by the call identifier.
  Without an assistant message in last position it raises.
\<close>

definition tool_node :: "tool_exec \<Rightarrow> message list \<Rightarrow> error + message list" where
  "tool_node run messages =
     (if messages = [] then Inl ValueError
      else case last messages of
             AIMessage c tcs \<Rightarrow> Inr (map (\<lambda>tc. ToolMessage (run tc) (call_id tc)) tcs)
           | _ \<Rightarrow> Inl ValueError)"

datatype node = Agent | Tools | END

text \<open>
  Modelled from the spec: the library's \<^verbatim>\<open>tools_condition\<close>, the routing after the
  Reasoning Node: to the tools when the last message requests at least one tool call, to
  the end otherwise.
\<close>

definition tools_condition :: "message list \<Rightarrow> error + node" where
  "tools_condition messages =
     (if messages = [] then Inl ValueError
      else if tool_calls (last messages) \<noteq> [] then Inr Tools else Inr END)"

text \<open>
  One node execution of the graph \<^verbatim>\<open>build_workflow\<close> wires: the entry point is
  \<open>Agent\<close>, the conditional edge after \<open>Agent\<close> is \<open>tools_condition\<close> with
  \<^verbatim>\<open>{"tools": "tools", END: END}\<close>, and the edge after \<open>Tools\<close> leads to \<open>Agent\<close>.
\<close>

definition node_step :: "llm \<Rightarrow> tool_exec \<Rightarrow> node \<Rightarrow> message list \<Rightarrow> error + node \<times> message list" where
  "node_step llm_with_tools run nd messages =
     (case nd of
        Agent \<Rightarrow>
          (case agent_node llm_with_tools messages of
             Inl e \<Rightarrow> Inl e
           | Inr update \<Rightarrow>
               (let messages' = add_messages messages update
                in case tools_condition messages' of
                     Inl e \<Rightarrow> Inl e
                   | Inr nd' \<Rightarrow> Inr (nd', messages')))
      | Tools \<Rightarrow>
          (case tool_node run messages of
             Inl e \<Rightarrow> Inl e
           | Inr update \<Rightarrow> Inr (Agent, add_messages messages update))
      | END \<Rightarrow> Inr (END, messages))"

text \<open>\<open>n\<close> node executions in a row.\<close>

fun node_steps :: "llm \<Rightarrow> tool_exec \<Rightarrow> nat \<Rightarrow> node \<Rightarrow> message list \<Rightarrow> error + node \<times> message list" where
  "node_steps llm_with_tools run 0 nd messages = Inr (nd, messages)"
| "node_steps llm_with_tools run (Suc n) nd messages =
     (case node_step llm_with_tools run nd messages of
        Inl e \<Rightarrow> Inl e
      | Inr (nd', messages') \<Rightarrow> node_steps llm_with_tools run n nd' messages')"

text \<open>
  Modelled from the spec: the runtime of the compiled graph, \<^verbatim>\<open>workflow.compile()\<close> and
  \<^verbatim>\<open>app.invoke\<close>, which executes nodes from the entry point until the end is reached.
  \<^verbatim>\<open>build_workflow\<close> and \<^verbatim>\<open>ask\<close> configure no iteration cap of their own, so the
  recursion limit of the runtime applies; it is a parameter here, and \<^verbatim>\<open>ask\<close>, which
  passes no configuration, runs under the runtime's default of 25. The runtime counts its
  own start step: after each node execution it raises \<^verbatim>\<open>GraphRecursionError\<close> when the
  number of executed nodes has reached the limit, before it looks whether the end is
  reached. So under a limit \<open>n\<close> a run returns only if it ends in fewer than \<open>n\<close> node
  executions. \<open>executed\<close> is the number of node executions so far, \<open>nd\<close> the node to
  execute next.
\<close>

function run_graph ::
  "nat \<Rightarrow> llm \<Rightarrow> tool_exec \<Rightarrow> nat \<Rightarrow> node \<Rightarrow> message list \<Rightarrow> error + message list" where
  "run_graph recursion_limit llm_with_tools run executed nd messages =
     (case node_step llm_with_tools run nd messages of
        Inl e \<Rightarrow> Inl e
      | Inr (nd', messages') \<Rightarrow>
          if recursion_limit \<le> Suc executed then Inl GraphRecursionError
          else if nd' = END then Inr messages'
          else run_graph recursion_limit llm_with_tools run (Suc executed) nd' messages')"
  by pat_completeness auto
termination
  by (relation "measure (\<lambda>(recursion_limit, llm_with_tools, run, executed, nd, messages).
        recursion_limit - executed)") auto

declare run_graph.simps [simp del]

text \<open>
  \<^verbatim>\<open>app.invoke(initial_state)\<close> on the compiled graph: the runtime refuses a recursion
  limit below 1, applies the reducer to the input and starts at the entry point.
\<close>

definition invoke :: "nat \<Rightarrow> llm \<Rightarrow> tool_exec \<Rightarrow> message list \<Rightarrow> error + message list" where
  "invoke recursion_limit llm_with_tools run initial_messages =
     (if recursion_limit < 1 then Inl ValueError
      else run_graph recursion_limit llm_with_tools run 0 Agent (add_messages [] initial_messages))"

text \<open>
  The compiled workflow as \<^verbatim>\<open>ask\<close> uses it, which may also be a stand-in, as in the
  repository's tests: \<^verbatim>\<open>invoke\<close> maps the initial messages to the final ones, raises,
  or does not return. The final messages are Python values, since \<^verbatim>\<open>ask\<close> inspects
  them dynamically. The workflow that \<^verbatim>\<open>build_workflow\<close> compiles always returns or
  raises, since the recursion limit bounds its run.
\<close>

type_synonym app = "message list \<Rightarrow> (error + pyval list) option"

fun message_obj :: "message \<Rightarrow> pyval" where
  "message_obj (HumanMessage c) = PObj [(''type'', PStr ''human''), (''content'', PStr c)]"
| "message_obj (AIMessage c tcs) =
     PObj [(''type'', PStr ''ai''), (''content'', PStr c),
           (''tool_calls'',
            PList (map (\<lambda>tc. PDict [(''name'', PStr (tool_name tc)), (''args'', PDict (tool_args tc)),
                                     (''id'', PStr (call_id tc))]) tcs))]"
| "message_obj (ToolMessage c cid) =
     PObj [(''type'', PStr ''tool''), (''content'', PStr c), (''tool_call_id'', PStr cid)]"

definition build_workflow :: "nat \<Rightarrow> llm \<Rightarrow> tool_exec \<Rightarrow> app" where
  "build_workflow recursion_limit llm_with_tools run =
     (\<lambda>initial_messages.
        case invoke recursion_limit llm_with_tools run initial_messages of
          Inl e \<Rightarrow> Some (Inl e)
        | Inr final_messages \<Rightarrow> Some (Inr (map message_obj final_messages)))"

section \<open>The session facade (\<^verbatim>\<open>GraphRAGChatbot.ask\<close>)\<close>

definition no_answer_message :: string where
  "no_answer_message = ''Mi dispiace, non sono riuscito a generare una risposta.''"

text \<open>The accented letter of the source text is written as its two UTF-8 bytes.\<close>

definition error_message :: string where
  "error_message =
     ''Mi dispiace, si '' @ [CHR 0xC3, CHR 0xA8] @ '' verificato un errore nel processare la tua domanda.''"

text \<open>
  The extraction of the answer from \<^verbatim>\<open>final_state["messages"]\<close>: \<^verbatim>\<open>hasattr\<close> finds an
  attribute on objects only, \<^verbatim>\<open>isinstance(last_message, dict)\<close> holds of dictionaries
  only.
\<close>

definition extract_answer :: "pyval list \<Rightarrow> pyval" where
  "extract_answer final_messages =
     (if final_messages \<noteq> [] then
        (case last final_messages of
           PObj attrs \<Rightarrow>
             (case map_of attrs ''content'' of
                Some c \<Rightarrow> c
              | None \<Rightarrow> PStr no_answer_message)
         | PDict d \<Rightarrow>
             (case map_of d ''content'' of
                Some c \<Rightarrow> c
              | None \<Rightarrow> PStr no_answer_message)
         | _ \<Rightarrow> PStr no_answer_message)
      else PStr no_answer_message)"

text \<open>
  \<^verbatim>\<open>ask\<close>. The first argument is the outcome of \<^verbatim>\<open>self.build_workflow()\<close>, which raises
  or gives the compiled workflow. The result is \<open>None\<close> when \<^verbatim>\<open>app.invoke\<close> does not
  return, \<open>Some (Inl e)\<close> for an exception that reaches the caller, \<open>Some (Inr v)\<close> for a
  returned value.
\<close>

definition ask_body :: "error + app \<Rightarrow> string \<Rightarrow> (error + pyval) option" where
  "ask_body build question =
     (case build of
        Inl e \<Rightarrow> Some (Inl e)
      | Inr app \<Rightarrow>
          (case app [HumanMessage question] of
             None \<Rightarrow> None
           | Some (Inl e) \<Rightarrow> Some (Inl e)
           | Some (Inr final_messages) \<Rightarrow> Some (Inr (extract_answer final_messages))))"

definition ask :: "error + app \<Rightarrow> string \<Rightarrow> (error + pyval) option" where
  "ask build question =
     map_option (\<lambda>body. try_except body (\<lambda>e. Inr (PStr error_message))) (ask_body build question)"

section \<open>Notions used to state the properties\<close>

text \<open>
  A tool-call request is resolved in a history when a later tool result carries its call
  identifier; a history is resolved when every request of every message is.
\<close>

fun has_result :: "string \<Rightarrow> message list \<Rightarrow> bool" where
  "has_result cid [] = False"
| "has_result cid (ToolMessage c cid' # ms) = (cid' = cid \<or> has_result cid ms)"
| "has_result cid (_ # ms) = has_result cid ms"

fun all_resolved :: "message list \<Rightarrow> bool" where
  "all_resolved [] = True"
| "all_resolved (m # ms) =
     (list_all (\<lambda>tc. has_result (call_id tc) ms) (tool_calls m) \<and> all_resolved ms)"

fun is_ai :: "message \<Rightarrow> bool" where
  "is_ai (AIMessage c tcs) = True"
| "is_ai _ = False"

text \<open>
  A model that answers from a finite sequence of responses, each a content with its
  tool-call requests: the \<open>k\<close>-th invocation gives the \<open>k\<close>-th response, and an invocation
  beyond the sequence raises, as an exhausted mock does. The number of earlier
  invocations is the number of assistant messages in the history.
\<close>

definition scripted :: "(string \<times> tool_call list) list \<Rightarrow> llm" where
  "scripted responses messages =
     (let k = length (filter is_ai messages)
      in if k < length responses then Inr (AIMessage (fst (responses ! k)) (snd (responses ! k)))
         else Inl StopIteration)"

text \<open>A model that requests a web search in every turn, with a fresh call identifier.\<close>

definition web_search_request :: "nat \<Rightarrow> tool_call" where
  "web_search_request i =
     \<lparr>tool_name = ''web_search_tool'', tool_args = [(''query'', PStr ''q'')],
      call_id = replicate (Suc i) CHR ''c''\<rparr>"

definition always_tools :: llm where
  "always_tools messages = Inr (AIMessage [] [web_search_request (length messages)])"

definition no_results :: tool_exec where
  "no_results tc = ''[]''"

definition thirteen_searches :: "(string \<times> tool_call list) list" where
  "thirteen_searches = map (\<lambda>i. ([], [web_search_request i])) [0..<13] @ [(''done'', [])]"

text \<open>The primary strategy of \<^verbatim>\<open>structured_query_tool\<close> raises: the chain is absent or its call fails.\<close>

definition primary_raises :: "query_chain option \<Rightarrow> string \<Rightarrow> bool" where
  "primary_raises graph_qa_chain query =
     (case graph_qa_chain of None \<Rightarrow> True | Some chain \<Rightarrow> isl (chain query))"

text \<open>
  A flat record maps every field to a scalar: no value is a list, a dictionary or an
  object.
\<close>

fun flat_value :: "pyval \<Rightarrow> bool" where
  "flat_value (PList xs) = False"
| "flat_value (PDict d) = False"
| "flat_value (PObj a) = False"
| "flat_value _ = True"

definition flat_record :: "pydict \<Rightarrow> bool" where
  "flat_record r = list_all (\<lambda>(k, v). flat_value v) r"

text \<open>
  The chains and graphs of the test scenarios: a chain that answers with a dictionary, as
  the chain of the repository's success test does; a chain that raises; a graph that
  answers with one entity record; and a graph that answers with seven.
\<close>

definition nested_chain :: query_chain where
  "nested_chain q = Inr (PDict [(''result'', PStr ''Test result'')])"

definition failing_chain :: query_chain where
  "failing_chain q = Inl (BackendError ''Chain error'')"

definition test_entity :: pydict where
  "test_entity =
     [(''name'', PStr ''Test''), (''type'', PStr ''Entity''), (''description'', PStr ''Test entity'')]"

definition one_entity_graph :: graph_store where
  "one_entity_graph c p = Inr [test_entity]"

definition seven_records_graph :: graph_store where
  "seven_records_graph c p = Inr (replicate 7 test_entity)"

text \<open>A model that requests at least one tool in every turn, whatever the history.\<close>

definition keeps_requesting :: "llm \<Rightarrow> bool" where
  "keeps_requesting llm_with_tools =
     (\<forall>messages. \<exists>c tcs. llm_with_tools messages = Inr (AIMessage c tcs) \<and> tcs \<noteq> [])"

text \<open>The base result of a match, and the identifier its enrichment is keyed by.\<close>

definition base_doc :: "match \<Rightarrow> pydict" where
  "base_doc doc = [(''content'', PStr (page_content doc)), (''metadata'', PDict (metadata doc))]"

definition doc_identifier :: "match \<Rightarrow> pyval" where
  "doc_identifier doc =
     py_or (dict_get (metadata doc) ''id'' PNone) (dict_get (metadata doc) ''source'' (PStr []))"

text \<open>
  The invariant of the loop: before the tools run, only the requests of the last message
  are open; at the Reasoning Node and at the end, none is.
\<close>

definition loop_inv :: "node \<Rightarrow> message list \<Rightarrow> bool" where
  "loop_inv nd msgs =
     (case nd of
        Tools \<Rightarrow> msgs \<noteq> [] \<and> all_resolved (butlast msgs) \<and> tool_calls (last msgs) \<noteq> []
      | _ \<Rightarrow> all_resolved msgs)"

text \<open>
  The backends of the test scenarios: an index with one match whose metadata is
  \<^verbatim>\<open>{"id": "doc1"}\<close>, and a graph that answers every query with one related-entity
  record.
\<close>

definition one_match_index :: vector_store where
  "one_match_index q k = Inr [\<lparr>page_content = ''Test content'', metadata = [(''id'', PStr ''doc1'')]\<rparr>]"

definition related_record :: pydict where
  "related_record =
     [(''document_name'', PStr ''Test Document''),
      (''related_entities'', PList [PStr ''Entity1'']),
      (''entity_types'', PList [PStr ''Type1''])]"

definition one_record_graph :: graph_store where
  "one_record_graph c p = Inr [related_record]"

text \<open>
  Graders for the scenarios: one that answers \<^verbatim>\<open>no\<close>, one that answers \<^verbatim>\<open>yes\<close>, and a
  relevance grader that answers with the text of the document and fails on the text
  \<^verbatim>\<open>fail\<close>.
\<close>

definition answers_no :: answer_grader where
  "answers_no a b = Inr ''no''"

definition answers_yes :: answer_grader where
  "answers_yes a b = Inr ''yes''"

definition echo_grader :: relevance_grader where
  "echo_grader question document =
     (case document of
        PStr s \<Rightarrow> if s = ''fail'' then Inl (BackendError ''grader'') else Inr s
      | _ \<Rightarrow> Inl TypeError)"

text \<open>
  Compiled workflows for the scenarios of \<^verbatim>\<open>ask\<close>: one whose run yields no message, one
  whose run raises, and two whose final message has the content \<^verbatim>\<open>X\<close>, as an object
  and as a dictionary. The script \<open>two_turns\<close> requests one web search and then answers.
\<close>

definition empty_app :: app where
  "empty_app initial_messages = Some (Inr [])"

definition failing_app :: app where
  "failing_app initial_messages = Some (Inl (BackendError ''Model error''))"

definition object_app :: app where
  "object_app initial_messages = Some (Inr [PObj [(''type'', PStr ''ai''), (''content'', PStr ''X'')]])"

definition dict_app :: app where
  "dict_app initial_messages = Some (Inr [PDict [(''content'', PStr ''X'')]])"

definition two_turns :: "(string \<times> tool_call list) list" where
  "two_turns = [([], [web_search_request 0]), (''answer'', [])]"

section \<open>Properties of the retrieval tools\<close>

text \<open>
  Claim C2. A retrieval tool whose backend is not configured (no vector store; neither
  query chain nor graph; no web-search client) returns the empty list for every query,
  and does not raise.
\<close>

theorem retrieval_tools_fail_open:
  "hybrid_search_tool None graph query = Inr [] \<and>
   structured_query_tool None None query = Inr [] \<and>
   web_search_tool None query = Inr []"
  by (simp add: hybrid_search_tool_def structured_query_tool_def web_search_tool_def)

theorem retrieval_tools_fail_open_witness:
  "hybrid_search_tool None None ''Test question'' = Inr [] \<and>
   structured_query_tool None None ''Test question'' = Inr [] \<and>
   web_search_tool None ''Test question'' = Inr []"
  using retrieval_tools_fail_open [of None "''Test question''"] by simp

text \<open>
  Claim C3, as stated, fails in two places. When the chain answers, the record of the
  tool holds the chain's output as it is under \<^verbatim>\<open>result\<close>, so a chain that answers
  with a dictionary gives a nested record, not a flat one. And the tool does not cap the
  fallback records: a graph that answers the fallback query with seven records gives
  seven.
\<close>

theorem structured_query_tool_nested_uncapped:
  "structured_query_tool (Some nested_chain) None ''Test question'' =
     Inr [[(''question'', PStr ''Test question''),
           (''result'', PDict [(''result'', PStr ''Test result'')])]] \<and>
   \<not> flat_record [(''question'', PStr ''Test question''),
                  (''result'', PDict [(''result'', PStr ''Test result'')])] \<and>
   structured_query_tool (Some failing_chain) (Some seven_records_graph) ''Test question'' =
     Inr (replicate 7 test_entity) \<and>
   \<not> length (replicate 7 test_entity) \<le> 5"
  by (simp add: structured_query_tool_def try_except_def nested_chain_def failing_chain_def
      seven_records_graph_def flat_record_def)

text \<open>
  Claim C3, amended. \<^verbatim>\<open>structured_query_tool\<close> always returns a list of records and
  never raises. When the query chain answers, the list holds one record with the query
  under \<^verbatim>\<open>question\<close> and the chain's output, as it is, under \<^verbatim>\<open>result\<close>; that record
  is flat exactly when the output is a scalar. When the chain raises and a graph is
  available, the tool sends the entity substring query, whose text asks for at most 5
  records, and returns the records of the graph unmodified, as many as the graph gives.
  When the fallback raises as well, or there is no graph, the list is empty.
\<close>

theorem structured_query_tool_fallback:
  "(\<exists>records. structured_query_tool graph_qa_chain graph query = Inr records) \<and>
   (graph_qa_chain = None \<and> graph = None \<longrightarrow>
      structured_query_tool graph_qa_chain graph query = Inr []) \<and>
   (\<forall>chain result. graph_qa_chain = Some chain \<and> chain query = Inr result \<longrightarrow>
      structured_query_tool graph_qa_chain graph query =
        Inr [[(''question'', PStr query), (''result'', result)]] \<and>
      flat_record [(''question'', PStr query), (''result'', result)] = flat_value result) \<and>
   (primary_raises graph_qa_chain query \<longrightarrow>
      (\<forall>g records. graph = Some g \<and> g EntityFallbackQuery [(''query'', PStr query)] = Inr records \<longrightarrow>
         structured_query_tool graph_qa_chain graph query = Inr records \<and>
         cypher_limit EntityFallbackQuery = 5) \<and>
      (\<forall>g e. graph = Some g \<and> g EntityFallbackQuery [(''query'', PStr query)] = Inl e \<longrightarrow>
         structured_query_tool graph_qa_chain graph query = Inr []) \<and>
      (graph = None \<longrightarrow> structured_query_tool graph_qa_chain graph query = Inr []))"
  by (auto simp: structured_query_tool_def try_except_def primary_raises_def flat_record_def
      split: option.splits sum.splits)

theorem structured_query_tool_fallback_witness:
  "primary_raises (Some failing_chain) ''Test question'' \<and>
   one_entity_graph EntityFallbackQuery [(''query'', PStr ''Test question'')] = Inr [test_entity] \<and>
   structured_query_tool (Some failing_chain) (Some one_entity_graph) ''Test question'' =
     Inr [test_entity] \<and>
   nested_chain ''Test question'' = Inr (PDict [(''result'', PStr ''Test result'')]) \<and>
   structured_query_tool (Some nested_chain) (Some one_entity_graph) ''Test question'' =
     Inr [[(''question'', PStr ''Test question''),
           (''result'', PDict [(''result'', PStr ''Test result'')])]]"
proof -
  have pr: "primary_raises (Some failing_chain) ''Test question''"
    by (simp add: primary_raises_def failing_chain_def)
  have g: "one_entity_graph EntityFallbackQuery [(''query'', PStr ''Test question'')] = Inr [test_entity]"
    by (simp add: one_entity_graph_def)
  have n: "nested_chain ''Test question'' = Inr (PDict [(''result'', PStr ''Test result'')])"
    by (simp add: nested_chain_def)
  show ?thesis
    using pr g n
      structured_query_tool_fallback
        [of "Some failing_chain" "Some one_entity_graph" "''Test question''"]
      structured_query_tool_fallback
        [of "Some nested_chain" "Some one_entity_graph" "''Test question''"]
    by simp
qed

text \<open>
  Claim C5. With a vector store, \<^verbatim>\<open>hybrid_search_tool\<close> asks it for the \<open>k = 3\<close> best
  matches of the query and returns one document for each match the store gives, in
  order, with the content and the metadata of the match. With a graph, a match whose
  metadata carries an identifier (\<^verbatim>\<open>id\<close>, else \<^verbatim>\<open>source\<close>) gets the first record of the
  graph's answer as \<^verbatim>\<open>related_context\<close>; when the graph raises or answers nothing,
  and when there is no graph or no identifier, the document is the base result.
\<close>

theorem hybrid_search_tool_enrichment:
  assumes "vs query 3 = Inr results"
  shows "hybrid_search_tool (Some vs) graph query = Inr (map (enhance_doc graph) results) \<and>
     (\<forall>doc \<in> set results.
        map_of (enhance_doc graph doc) ''content'' = Some (PStr (page_content doc)) \<and>
        map_of (enhance_doc graph doc) ''metadata'' = Some (PDict (metadata doc)) \<and>
        (\<forall>g. graph = Some g \<and> truthy (doc_identifier doc) \<longrightarrow>
           (case g RelatedContextQuery [(''doc_id'', doc_identifier doc)] of
              Inr (related # others) \<Rightarrow>
                enhance_doc graph doc = base_doc doc @ [(''related_context'', PDict related)]
            | _ \<Rightarrow> enhance_doc graph doc = base_doc doc)) \<and>
        (graph = None \<or> \<not> truthy (doc_identifier doc) \<longrightarrow> enhance_doc graph doc = base_doc doc))"
  using assms
  by (auto simp: hybrid_search_tool_def try_except_def enhance_doc_def base_doc_def
      doc_identifier_def Let_def split: option.splits sum.splits list.splits)

theorem hybrid_search_tool_enrichment_witness:
  "one_match_index ''Test question'' 3 =
     Inr [\<lparr>page_content = ''Test content'', metadata = [(''id'', PStr ''doc1'')]\<rparr>] \<and>
   hybrid_search_tool (Some one_match_index) (Some one_record_graph) ''Test question'' =
     Inr [[(''content'', PStr ''Test content''),
           (''metadata'', PDict [(''id'', PStr ''doc1'')]),
           (''related_context'', PDict related_record)]]"
proof -
  have h: "one_match_index ''Test question'' 3 =
     Inr [\<lparr>page_content = ''Test content'', metadata = [(''id'', PStr ''doc1'')]\<rparr>]"
    by (simp add: one_match_index_def)
  show ?thesis
    using h hybrid_search_tool_enrichment
        [of one_match_index "''Test question''"
            "[\<lparr>page_content = ''Test content'', metadata = [(''id'', PStr ''doc1'')]\<rparr>]"
            "Some one_record_graph"]
    by (simp add: doc_identifier_def base_doc_def py_or_def dict_get_def one_record_graph_def)
qed

section \<open>Properties of the quality-control tools\<close>

lemma grade_loop_filtered:
  "fst (grade_loop g question ds) =
     filter (\<lambda>d. truthy (doc_text d) \<and>
        (g question (doc_text d) = Inr ''yes'' \<or> isl (g question (doc_text d)))) ds"
  by (induction ds) (auto simp: Let_def split: prod.splits sum.splits)

lemma grade_loop_calls:
  "snd (grade_loop g question ds) =
     map (\<lambda>d. (question, doc_text d)) (filter (\<lambda>d. truthy (doc_text d)) ds)"
  by (induction ds) (auto simp: Let_def split: prod.splits sum.splits)

text \<open>
  Claim C4. Without one of the two graders the verdict is \<^verbatim>\<open>utile\<close>. With both, the
  hallucination grader is asked first, on the joined document texts: its \<^verbatim>\<open>no\<close> gives
  \<^verbatim>\<open>non supportato\<close> whatever the usefulness grader would say; its \<^verbatim>\<open>yes\<close> followed by
  the usefulness grader's \<^verbatim>\<open>no\<close> gives \<^verbatim>\<open>non utile\<close>; two \<^verbatim>\<open>yes\<close> give \<^verbatim>\<open>utile\<close>.
\<close>

theorem grade_answer_tool_verdicts:
  "grade_answer_tool generation documents question None ug = ''utile'' \<and>
   grade_answer_tool generation documents question hg None = ''utile'' \<and>
   (doc_context documents = Inr ctx \<longrightarrow>
     (h ctx generation = Inr ''no'' \<longrightarrow>
        grade_answer_tool generation documents question (Some h) (Some u) = ''non supportato'') \<and>
     (h ctx generation = Inr ''yes'' \<and> u question generation = Inr ''no'' \<longrightarrow>
        grade_answer_tool generation documents question (Some h) (Some u) = ''non utile'') \<and>
     (h ctx generation = Inr ''yes'' \<and> u question generation = Inr ''yes'' \<longrightarrow>
        grade_answer_tool generation documents question (Some h) (Some u) = ''utile''))"
  by (auto simp: grade_answer_tool_def split: option.splits)

theorem grade_answer_tool_verdicts_witness:
  "doc_context [[(''content'', PStr ''Test document'')]] = Inr ''Test document'' \<and>
   grade_answer_tool ''Test answer'' [[(''content'', PStr ''Test document'')]] ''Test question''
     (Some answers_no) (Some answers_no) = ''non supportato'' \<and>
   grade_answer_tool ''Test answer'' [[(''content'', PStr ''Test document'')]] ''Test question''
     (Some answers_no) (Some answers_yes) = ''non supportato'' \<and>
   grade_answer_tool ''Test answer'' [[(''content'', PStr ''Test document'')]] ''Test question''
     (Some answers_yes) (Some answers_no) = ''non utile'' \<and>
   grade_answer_tool ''Test answer'' [[(''content'', PStr ''Test document'')]] ''Test question''
     (Some answers_yes) (Some answers_yes) = ''utile'' \<and>
   grade_answer_tool ''Test answer'' [[(''content'', PStr ''Test document'')]] ''Test question''
     None (Some answers_no) = ''utile''"
proof -
  have c: "doc_context [[(''content'', PStr ''Test document'')]] = Inr ''Test document''"
    by (simp add: doc_context_def doc_text_def py_or_def dict_get_def)
  show ?thesis
    using c
      grade_answer_tool_verdicts [of "''Test answer''" "[[(''content'', PStr ''Test document'')]]"
        "''Test question''" "Some answers_no" None "''Test document''" answers_no answers_no]
      grade_answer_tool_verdicts [of "''Test answer''" "[[(''content'', PStr ''Test document'')]]"
        "''Test question''" "Some answers_no" None "''Test document''" answers_no answers_yes]
      grade_answer_tool_verdicts [of "''Test answer''" "[[(''content'', PStr ''Test document'')]]"
        "''Test question''" "Some answers_no" None "''Test document''" answers_yes answers_no]
      grade_answer_tool_verdicts [of "''Test answer''" "[[(''content'', PStr ''Test document'')]]"
        "''Test question''" "Some answers_no" None "''Test document''" answers_yes answers_yes]
    by (simp add: answers_no_def answers_yes_def)
qed

text \<open>
  Claim C6. With a relevance grader, \<^verbatim>\<open>grade_documents_tool\<close> returns, in order, the
  documents submitted to the grader (those with a text) that it graded \<^verbatim>\<open>yes\<close> or on
  which it raised; without a grader it returns the list it was given.
\<close>

theorem grade_documents_tool_filter:
  "grade_documents_tool documents question (Some g) =
     filter (\<lambda>d. truthy (doc_text d) \<and>
        (g question (doc_text d) = Inr ''yes'' \<or> isl (g question (doc_text d)))) documents
   \<and> grade_documents_tool documents question None = documents"
  by (simp add: grade_documents_tool_def grade_loop_filtered)

theorem grade_documents_tool_filter_witness:
  "grade_documents_tool
     [[(''content'', PStr ''yes'')], [(''content'', PStr ''no'')], [(''content'', PStr ''fail'')]]
     ''Privacy question'' (Some echo_grader) =
   [[(''content'', PStr ''yes'')], [(''content'', PStr ''fail'')]]"
  using grade_documents_tool_filter
    [of "[[(''content'', PStr ''yes'')], [(''content'', PStr ''no'')], [(''content'', PStr ''fail'')]]"
        "''Privacy question''" echo_grader]
  by (simp add: echo_grader_def doc_text_def py_or_def dict_get_def)

text \<open>
  Claim C10. With a relevance grader, a document whose text is empty under both
  \<^verbatim>\<open>content\<close> and \<^verbatim>\<open>page_content\<close> is not in the output and is not submitted to the
  grader: every call of the grader carries a non-empty text.
\<close>

theorem grade_documents_tool_drops_empty:
  assumes "\<not> truthy (dict_get d ''content'' (PStr []))"
      and "\<not> truthy (dict_get d ''page_content'' (PStr []))"
  shows "d \<notin> set (grade_documents_tool documents question (Some g)) \<and>
         (question, doc_text d) \<notin> set (grader_invocations documents question (Some g)) \<and>
         grader_invocations documents question (Some g) =
           map (\<lambda>d. (question, doc_text d)) (filter (\<lambda>d. truthy (doc_text d)) documents)"
proof -
  from assms have "\<not> truthy (doc_text d)" by (simp add: doc_text_def py_or_def)
  then show ?thesis
    by (auto simp: grade_documents_tool_def grader_invocations_def grade_loop_filtered grade_loop_calls)
qed

theorem grade_documents_tool_drops_empty_witness:
  "\<not> truthy (dict_get [(''content'', PStr []), (''metadata'', PDict [])] ''content'' (PStr [])) \<and>
   \<not> truthy (dict_get [(''content'', PStr []), (''metadata'', PDict [])] ''page_content'' (PStr [])) \<and>
   [(''content'', PStr []), (''metadata'', PDict [])] \<notin>
     set (grade_documents_tool
            [[(''content'', PStr []), (''metadata'', PDict [])], [(''content'', PStr ''yes'')]]
            ''Privacy question'' (Some echo_grader)) \<and>
   grader_invocations
     [[(''content'', PStr []), (''metadata'', PDict [])], [(''content'', PStr ''yes'')]]
     ''Privacy question'' (Some echo_grader) = [(''Privacy question'', PStr ''yes'')]"
proof -
  have a: "\<not> truthy (dict_get [(''content'', PStr []), (''metadata'', PDict [])] ''content'' (PStr []))"
    by (simp add: dict_get_def)
  have b: "\<not> truthy (dict_get [(''content'', PStr []), (''metadata'', PDict [])] ''page_content'' (PStr []))"
    by (simp add: dict_get_def)
  show ?thesis
    using a b
      grade_documents_tool_drops_empty [OF a b,
        of "[[(''content'', PStr []), (''metadata'', PDict [])], [(''content'', PStr ''yes'')]]"
           "''Privacy question''" echo_grader]
    by (simp add: doc_text_def py_or_def dict_get_def)
qed

section \<open>Properties of the session facade\<close>

lemma message_obj_content:
  "\<exists>attrs. message_obj m = PObj attrs \<and> map_of attrs ''content'' = Some (PStr (content m))"
  by (cases m) auto

text \<open>
  Claim C7. No exception leaves \<^verbatim>\<open>ask\<close>. When building the workflow raises, or its run
  raises, the result is the fixed error text; when the final messages are empty, or the
  last one has no content to extract, the result is the fixed no-answer text.
\<close>

theorem ask_never_raises:
  "(\<forall>e. ask build question \<noteq> Some (Inl e)) \<and>
   (\<forall>e. build = Inl e \<longrightarrow> ask build question = Some (Inr (PStr error_message))) \<and>
   (\<forall>app e. build = Inr app \<and> app [HumanMessage question] = Some (Inl e) \<longrightarrow>
      ask build question = Some (Inr (PStr error_message))) \<and>
   (\<forall>app. build = Inr app \<and> app [HumanMessage question] = Some (Inr []) \<longrightarrow>
      ask build question = Some (Inr (PStr no_answer_message))) \<and>
   (\<forall>app final_messages. build = Inr app \<and>
      app [HumanMessage question] = Some (Inr final_messages) \<and> final_messages \<noteq> [] \<and>
      (\<forall>attrs. last final_messages = PObj attrs \<longrightarrow> map_of attrs ''content'' = None) \<and>
      (\<forall>d. last final_messages = PDict d \<longrightarrow> map_of d ''content'' = None) \<longrightarrow>
      ask build question = Some (Inr (PStr no_answer_message)))"
  by (auto simp: ask_def ask_body_def try_except_def extract_answer_def
      split: sum.splits option.splits pyval.splits)

theorem ask_never_raises_witness:
  "ask (Inl (BackendError ''Workflow error'')) ''Test question'' = Some (Inr (PStr error_message)) \<and>
   ask (Inr failing_app) ''Test question'' = Some (Inr (PStr error_message)) \<and>
   ask (Inr empty_app) ''Test question'' = Some (Inr (PStr no_answer_message))"
  using ask_never_raises [of "Inl (BackendError ''Workflow error'')" "''Test question''"]
    ask_never_raises [of "Inr failing_app" "''Test question''"]
    ask_never_raises [of "Inr empty_app" "''Test question''"]
  by (simp add: failing_app_def empty_app_def)

text \<open>
  Claim C9. When the run of the workflow ends with a last message whose content is \<open>X\<close>,
  \<^verbatim>\<open>ask\<close> returns \<open>X\<close>, whether that message is an object with a \<^verbatim>\<open>content\<close>
  attribute or a dictionary with a \<^verbatim>\<open>content\<close> key.
\<close>

theorem ask_returns_final_content:
  assumes "app [HumanMessage question] = Some (Inr final_messages)" and "final_messages \<noteq> []"
  shows "(\<forall>attrs. last final_messages = PObj attrs \<and> map_of attrs ''content'' = Some (PStr X) \<longrightarrow>
            ask (Inr app) question = Some (Inr (PStr X))) \<and>
         (\<forall>d. last final_messages = PDict d \<and> map_of d ''content'' = Some (PStr X) \<longrightarrow>
            ask (Inr app) question = Some (Inr (PStr X)))"
  using assms
  by (auto simp: ask_def ask_body_def try_except_def extract_answer_def)

theorem ask_returns_final_content_witness:
  "ask (Inr object_app) ''question'' = Some (Inr (PStr ''X'')) \<and>
   ask (Inr dict_app) ''question'' = Some (Inr (PStr ''X''))"
proof -
  have o: "object_app [HumanMessage ''question''] =
      Some (Inr [PObj [(''type'', PStr ''ai''), (''content'', PStr ''X'')]])"
    by (simp add: object_app_def)
  have d: "dict_app [HumanMessage ''question''] = Some (Inr [PDict [(''content'', PStr ''X'')]])"
    by (simp add: dict_app_def)
  show ?thesis
    using o d
      ask_returns_final_content [of object_app "''question''"
        "[PObj [(''type'', PStr ''ai''), (''content'', PStr ''X'')]]" "''X''"]
      ask_returns_final_content [of dict_app "''question''" "[PDict [(''content'', PStr ''X'')]]" "''X''"]
    by simp
qed

text \<open>The same for the workflow that \<^verbatim>\<open>build_workflow\<close> compiles: the messages of the loop are objects.\<close>

lemma ask_workflow_answer:
  assumes "invoke limit llm run [HumanMessage question] = Inr final"
      and "final \<noteq> []"
  shows "ask (Inr (build_workflow limit llm run)) question = Some (Inr (PStr (content (last final))))"
proof -
  obtain attrs where a: "message_obj (last final) = PObj attrs"
      "map_of attrs ''content'' = Some (PStr (content (last final)))"
    using message_obj_content by blast
  show ?thesis
    using assms a
    by (simp add: ask_def ask_body_def try_except_def extract_answer_def build_workflow_def last_map)
qed

section \<open>Properties of the agent loop\<close>

lemma node_step_extends:
  "node_step llm run nd msgs = Inr (nd', msgs') \<Longrightarrow> prefix msgs msgs'"
  by (auto simp: node_step_def add_messages_def Let_def split: node.splits sum.splits)

lemma node_steps_add:
  "node_steps llm run (k + j) nd msgs =
     (case node_steps llm run k nd msgs of
        Inl e \<Rightarrow> Inl e
      | Inr (nd', msgs') \<Rightarrow> node_steps llm run j nd' msgs')"
  by (induction k arbitrary: nd msgs) (auto split: sum.splits)

lemma node_steps_extends:
  "node_steps llm run n nd msgs = Inr (nd', msgs') \<Longrightarrow> prefix msgs msgs'"
proof (induction n arbitrary: nd msgs)
  case 0
  then show ?case by simp
next
  case (Suc n)
  then show ?case
    by (auto split: sum.splits dest!: node_step_extends intro: prefix_order.trans)
qed

lemma has_result_append: "has_result cid ms \<Longrightarrow> has_result cid (ms @ new)"
  by (induction cid ms rule: has_result.induct) auto

lemma has_result_tool_results:
  "tc \<in> set tcs \<Longrightarrow> has_result (call_id tc) (map (\<lambda>tc. ToolMessage (run tc) (call_id tc)) tcs)"
  by (induction tcs) auto

lemma all_resolved_append:
  "all_resolved ms \<Longrightarrow> all_resolved new \<Longrightarrow> all_resolved (ms @ new)"
  by (induction ms) (auto simp: list_all_iff has_result_append)

lemma all_resolved_tool_results:
  "all_resolved (map (\<lambda>tc. ToolMessage (run tc) (call_id tc)) tcs)"
  by (induction tcs) auto

lemma all_resolved_turn:
  "all_resolved ms \<Longrightarrow>
   all_resolved (ms @ [AIMessage c tcs] @ map (\<lambda>tc. ToolMessage (run tc) (call_id tc)) tcs)"
  by (rule all_resolved_append)
    (auto simp: list_all_iff has_result_tool_results all_resolved_tool_results)

lemma all_resolved_snoc_free:
  "all_resolved ms \<Longrightarrow> tool_calls m = [] \<Longrightarrow> all_resolved (ms @ [m])"
  by (rule all_resolved_append) auto

lemma node_step_inv:
  assumes "node_step llm run nd msgs = Inr (nd', msgs')" and "loop_inv nd msgs"
  shows "loop_inv nd' msgs'"
proof (cases nd)
  case Agent
  with assms show ?thesis
    by (auto simp: node_step_def loop_inv_def add_messages_def agent_node_def tools_condition_def
        all_resolved_snoc_free split: sum.splits if_splits)
next
  case Tools
  with assms obtain c tcs where l: "last msgs = AIMessage c tcs" and ne: "msgs \<noteq> []"
    and m': "msgs' = msgs @ map (\<lambda>tc. ToolMessage (run tc) (call_id tc)) tcs" and a: "nd' = Agent"
    by (auto simp: node_step_def tool_node_def add_messages_def split: if_splits message.splits)
  from ne l have "msgs = butlast msgs @ [AIMessage c tcs]"
    by (metis append_butlast_last_id)
  with m' have "msgs' = butlast msgs @ [AIMessage c tcs] @ map (\<lambda>tc. ToolMessage (run tc) (call_id tc)) tcs"
    by (metis append_assoc)
  moreover from assms(2) Tools have "all_resolved (butlast msgs)" by (simp add: loop_inv_def)
  ultimately have "all_resolved msgs'" by (simp only: all_resolved_turn)
  with a show ?thesis by (simp add: loop_inv_def)
next
  case END
  with assms show ?thesis by (simp add: node_step_def)
qed

lemma node_steps_inv:
  "node_steps llm run n nd msgs = Inr (nd', msgs') \<Longrightarrow> loop_inv nd msgs \<Longrightarrow> loop_inv nd' msgs'"
  by (induction n arbitrary: nd msgs) (auto split: sum.splits dest: node_step_inv)

lemma node_steps_turn:
  assumes "llm msgs = Inr response" and "tool_calls response \<noteq> []"
  shows "node_steps llm run 2 Agent msgs =
     Inr (Agent, msgs @ [response] @ map (\<lambda>tc. ToolMessage (run tc) (call_id tc)) (tool_calls response))"
proof -
  obtain c tcs where r: "response = AIMessage c tcs"
    using assms(2) by (cases response) auto
  have s1: "node_step llm run Agent msgs = Inr (Tools, msgs @ [response])"
    using assms by (simp add: node_step_def agent_node_def add_messages_def tools_condition_def)
  have s2: "node_step llm run Tools (msgs @ [response]) =
      Inr (Agent, (msgs @ [response]) @ map (\<lambda>tc. ToolMessage (run tc) (call_id tc)) (tool_calls response))"
    using r by (simp add: node_step_def tool_node_def add_messages_def)
  have "node_steps llm run (Suc (Suc 0)) Agent msgs =
      Inr (Agent, msgs @ [response] @ map (\<lambda>tc. ToolMessage (run tc) (call_id tc)) (tool_calls response))"
    using s1 s2 by simp
  then show ?thesis by (simp add: numeral_2_eq_2)
qed

text \<open>Every history that a run returns is reached by node executions from the start.\<close>

lemma run_graph_reaches:
  "run_graph limit llm run executed nd msgs = Inr final \<Longrightarrow>
   \<exists>n. node_steps llm run n nd msgs = Inr (END, final)"
proof (induction limit llm run executed nd msgs rule: run_graph.induct)
  case (1 limit llm run executed nd msgs)
  from "1.prems" obtain nd' msgs' where
    s: "node_step llm run nd msgs = Inr (nd', msgs')" and l: "\<not> limit \<le> Suc executed"
    by (subst (asm) run_graph.simps) (auto split: sum.splits if_splits)
  show ?case
  proof (cases "nd' = END")
    case True
    with "1.prems" s l have "final = msgs'"
      by (subst (asm) run_graph.simps) simp
    with s True have "node_steps llm run (Suc 0) nd msgs = Inr (END, final)" by simp
    then show ?thesis by blast
  next
    case False
    with "1.prems" s l have "run_graph limit llm run (Suc executed) nd' msgs' = Inr final"
      by (subst (asm) run_graph.simps) simp
    from "1.IH"[OF s refl l False this] obtain n where
      "node_steps llm run n nd' msgs' = Inr (END, final)" by blast
    with s have "node_steps llm run (Suc n) nd msgs = Inr (END, final)" by simp
    then show ?thesis by blast
  qed
qed

text \<open>
  Claim C8. Along the node executions of the loop from the user's question, every earlier
  history is a prefix of every later one, so messages are only appended and the length
  never decreases. Whenever the Reasoning Node is about to be invoked, every tool-call
  request in the history has a tool result with its call identifier after it; and when the
  model answers with requests, the next invocation of the Reasoning Node sees the history
  extended by that answer and one result per request.
\<close>

theorem history_monotone_resolved:
  assumes "node_steps llm run n Agent [HumanMessage question] = Inr (nd, messages)"
  shows "(\<forall>k nd_k messages_k.
            k \<le> n \<and> node_steps llm run k Agent [HumanMessage question] = Inr (nd_k, messages_k) \<longrightarrow>
            prefix messages_k messages \<and> length messages_k \<le> length messages) \<and>
         (nd = Agent \<longrightarrow> all_resolved messages) \<and>
         (\<forall>response. nd = Agent \<and> llm messages = Inr response \<and> tool_calls response \<noteq> [] \<longrightarrow>
            node_steps llm run (n + 2) Agent [HumanMessage question] =
              Inr (Agent, messages @ [response] @
                     map (\<lambda>tc. ToolMessage (run tc) (call_id tc)) (tool_calls response)))"
proof (intro conjI allI impI)
  fix k nd_k messages_k
  assume a: "k \<le> n \<and> node_steps llm run k Agent [HumanMessage question] = Inr (nd_k, messages_k)"
  then obtain j where n: "n = k + j" using le_Suc_ex by blast
  from assms a have "node_steps llm run j nd_k messages_k = Inr (nd, messages)"
    unfolding n by (simp add: node_steps_add)
  then show p: "prefix messages_k messages" by (rule node_steps_extends)
  then show "length messages_k \<le> length messages" by (rule prefix_length_le)
next
  assume "nd = Agent"
  moreover have "loop_inv Agent [HumanMessage question]" by (simp add: loop_inv_def)
  ultimately show "all_resolved messages"
    using node_steps_inv [OF assms] by (simp add: loop_inv_def)
next
  fix response
  assume a: "nd = Agent \<and> llm messages = Inr response \<and> tool_calls response \<noteq> []"
  then have t: "node_steps llm run 2 Agent messages =
      Inr (Agent, messages @ [response] @
             map (\<lambda>tc. ToolMessage (run tc) (call_id tc)) (tool_calls response))"
    by (intro node_steps_turn) simp_all
  have "node_steps llm run (n + 2) Agent [HumanMessage question] =
      (case node_steps llm run n Agent [HumanMessage question] of
         Inl e \<Rightarrow> Inl e
       | Inr (nd', msgs') \<Rightarrow> node_steps llm run 2 nd' msgs')"
    by (rule node_steps_add)
  also have "\<dots> = node_steps llm run 2 Agent messages"
    using assms a by simp
  finally show "node_steps llm run (n + 2) Agent [HumanMessage question] =
      Inr (Agent, messages @ [response] @
             map (\<lambda>tc. ToolMessage (run tc) (call_id tc)) (tool_calls response))"
    using t by simp
qed

theorem history_monotone_resolved_witness:
  "node_steps (scripted two_turns) no_results 2 Agent [HumanMessage ''q''] =
     Inr (Agent, [HumanMessage ''q'', AIMessage [] [web_search_request 0], ToolMessage ''[]'' ''c'']) \<and>
   all_resolved [HumanMessage ''q'', AIMessage [] [web_search_request 0], ToolMessage ''[]'' ''c''] \<and>
   prefix [HumanMessage ''q'']
     [HumanMessage ''q'', AIMessage [] [web_search_request 0], ToolMessage ''[]'' ''c'']"
proof -
  have s: "scripted two_turns [HumanMessage ''q''] = Inr (AIMessage [] [web_search_request 0])"
    by (simp add: scripted_def two_turns_def)
  have h: "node_steps (scripted two_turns) no_results 2 Agent [HumanMessage ''q''] =
     Inr (Agent, [HumanMessage ''q'', AIMessage [] [web_search_request 0], ToolMessage ''[]'' ''c''])"
    using s node_steps_turn [of "scripted two_turns" "[HumanMessage ''q'']"
        "AIMessage [] [web_search_request 0]" no_results]
    by (simp add: no_results_def web_search_request_def)
  have z: "node_steps (scripted two_turns) no_results 0 Agent [HumanMessage ''q''] =
     Inr (Agent, [HumanMessage ''q''])"
    by simp
  show ?thesis
    using h z history_monotone_resolved [OF h]
    by (auto simp: web_search_request_def)
qed

section \<open>Termination of the agent loop\<close>

lemma scripted_at:
  "length (filter is_ai msgs) = k \<Longrightarrow> k < length responses \<Longrightarrow>
   scripted responses msgs = Inr (AIMessage (fst (responses ! k)) (snd (responses ! k)))"
  by (simp add: scripted_def)

lemma scripted_terminates:
  assumes "responses \<noteq> []" and "snd (last responses) = []"
      and "2 * length responses \<le> limit"
  shows "length responses - k = d \<Longrightarrow> length (filter is_ai msgs) = k \<Longrightarrow> k < length responses \<Longrightarrow>
         executed \<le> 2 * k \<Longrightarrow>
         \<exists>final c. run_graph limit (scripted responses) run executed Agent msgs = Inr final
            \<and> last final = AIMessage c [] \<and> prefix msgs final
            \<and> length (filter is_ai final) \<le> length responses"
proof (induction d arbitrary: k msgs executed)
  case 0
  then show ?case by simp
next
  case (Suc d)
  let ?r = "AIMessage (fst (responses ! k)) (snd (responses ! k))"
  have sc: "scripted responses msgs = Inr ?r"
    using Suc.prems by (simp add: scripted_at)
  have lim: "\<not> limit \<le> Suc executed"
    using assms(3) Suc.prems by simp
  show ?case
  proof (cases "snd (responses ! k) = []")
    case True
    have "node_step (scripted responses) run Agent msgs = Inr (END, msgs @ [?r])"
      using sc True by (simp add: node_step_def agent_node_def add_messages_def tools_condition_def)
    then have "run_graph limit (scripted responses) run executed Agent msgs = Inr (msgs @ [?r])"
      using lim by (subst run_graph.simps) simp
    then show ?thesis using True Suc.prems by auto
  next
    case False
    have k1: "Suc k < length responses"
    proof (rule ccontr)
      assume "\<not> Suc k < length responses"
      with Suc.prems have "k = length responses - 1" by simp
      with assms(1,2) False show False by (simp add: last_conv_nth)
    qed
    let ?tms = "map (\<lambda>tc. ToolMessage (run tc) (call_id tc)) (snd (responses ! k))"
    have s1: "node_step (scripted responses) run Agent msgs = Inr (Tools, msgs @ [?r])"
      using sc False by (simp add: node_step_def agent_node_def add_messages_def tools_condition_def)
    have s2: "node_step (scripted responses) run Tools (msgs @ [?r]) = Inr (Agent, msgs @ [?r] @ ?tms)"
      by (simp add: node_step_def tool_node_def add_messages_def)
    have lim2: "\<not> limit \<le> Suc (Suc executed)"
      using assms(3) Suc.prems k1 by simp
    have cnt: "length (filter is_ai (msgs @ [?r] @ ?tms)) = Suc k"
      using Suc.prems by (simp add: filter_map comp_def)
    have "\<exists>final c. run_graph limit (scripted responses) run (Suc (Suc executed)) Agent
              (msgs @ [?r] @ ?tms) = Inr final
            \<and> last final = AIMessage c [] \<and> prefix (msgs @ [?r] @ ?tms) final
            \<and> length (filter is_ai final) \<le> length responses"
      using Suc.IH[of "Suc k" "msgs @ [?r] @ ?tms" "Suc (Suc executed)"] Suc.prems k1 cnt by simp
    then obtain final c where f:
      "run_graph limit (scripted responses) run (Suc (Suc executed)) Agent (msgs @ [?r] @ ?tms)
         = Inr final"
      "last final = AIMessage c []" "prefix (msgs @ [?r] @ ?tms) final"
      "length (filter is_ai final) \<le> length responses" by blast
    have "run_graph limit (scripted responses) run (Suc executed) Tools (msgs @ [?r]) = Inr final"
      using lim2 s2 f(1) by (subst run_graph.simps) simp
    then have "run_graph limit (scripted responses) run executed Agent msgs = Inr final"
      using lim s1 by (subst run_graph.simps) simp
    moreover have "prefix msgs final" using f(3) by (metis append_prefixD)
    ultimately show ?thesis using f by blast
  qed
qed

lemma keeps_requesting_stopped:
  "keeps_requesting llm \<Longrightarrow>
   nd = Agent \<or> (nd = Tools \<and> msgs \<noteq> [] \<and> is_ai (last msgs)) \<Longrightarrow>
   run_graph limit llm run executed nd msgs = Inl GraphRecursionError"
proof (induction limit llm run executed nd msgs rule: run_graph.induct)
  case (1 limit llm run executed nd msgs)
  from "1.prems"(2) show ?case
  proof
    assume a: "nd = Agent"
    from "1.prems"(1) obtain c tcs where r: "llm msgs = Inr (AIMessage c tcs)" "tcs \<noteq> []"
      unfolding keeps_requesting_def by blast
    have s: "node_step llm run nd msgs = Inr (Tools, msgs @ [AIMessage c tcs])"
      using a r by (simp add: node_step_def agent_node_def add_messages_def tools_condition_def)
    show ?thesis
    proof (cases "limit \<le> Suc executed")
      case True
      with s show ?thesis by (subst run_graph.simps) simp
    next
      case False
      have "run_graph limit llm run (Suc executed) Tools (msgs @ [AIMessage c tcs])
          = Inl GraphRecursionError"
        using "1.IH"[OF s refl False _ "1.prems"(1)] by simp
      with s False show ?thesis by (subst run_graph.simps) simp
    qed
  next
    assume a: "nd = Tools \<and> msgs \<noteq> [] \<and> is_ai (last msgs)"
    then obtain c tcs where l: "last msgs = AIMessage c tcs" by (cases "last msgs") auto
    obtain m where s: "node_step llm run nd msgs = Inr (Agent, m)"
      using a l by (simp add: node_step_def tool_node_def add_messages_def)
    show ?thesis
    proof (cases "limit \<le> Suc executed")
      case True
      with s show ?thesis by (subst run_graph.simps) simp
    next
      case False
      have "run_graph limit llm run (Suc executed) Agent m = Inl GraphRecursionError"
        using "1.IH"[OF s refl False _ "1.prems"(1)] by simp
      with s False show ?thesis by (subst run_graph.simps) simp
    qed
  qed
qed

text \<open>
  Claim C1, as stated, fails. Under the recursion limit of 25 that \<^verbatim>\<open>ask\<close> runs with,
  a sequence of thirteen responses that request a web search followed by a response that
  requests no tool does not reach its terminal message: the runtime stops the run with
  \<^verbatim>\<open>GraphRecursionError\<close>, and \<^verbatim>\<open>ask\<close> returns its fixed error text.
\<close>

theorem agent_loop_cut_by_recursion_limit:
  "thirteen_searches \<noteq> [] \<and> snd (last thirteen_searches) = [] \<and>
   build_workflow 25 (scripted thirteen_searches) no_results [HumanMessage ''q''] =
     Some (Inl GraphRecursionError) \<and>
   ask (Inr (build_workflow 25 (scripted thirteen_searches) no_results)) ''q'' =
     Some (Inr (PStr error_message))"
proof -
  have r: "run_graph 25 (scripted thirteen_searches) no_results 0 Agent [HumanMessage ''q'']
      = Inl GraphRecursionError"
    by code_simp
  have s: "thirteen_searches \<noteq> []" "snd (last thirteen_searches) = []"
    by (simp_all add: thirteen_searches_def)
  from r have b: "build_workflow 25 (scripted thirteen_searches) no_results [HumanMessage ''q''] =
      Some (Inl GraphRecursionError)"
    by (simp add: build_workflow_def invoke_def add_messages_def)
  then have "ask (Inr (build_workflow 25 (scripted thirteen_searches) no_results)) ''q'' =
      Some (Inr (PStr error_message))"
    by (simp add: ask_def ask_body_def try_except_def)
  with s b show ?thesis by simp
qed

text \<open>
  Claim C1, amended. For every question and every finite sequence of model responses
  whose last response requests no tool, the loop that \<^verbatim>\<open>build_workflow\<close> compiles returns
  a history that starts with the question and ends with an assistant message without
  tool-call requests, after at most as many invocations of the model as there are
  responses, provided that twice the number of responses does not exceed the recursion
  limit of the runtime. The recursion limit bounds every run: the workflow always returns
  or raises, and against a model that keeps requesting tools it is the runtime that ends
  the run, with \<^verbatim>\<open>GraphRecursionError\<close> and not with a terminal message.
\<close>

theorem agent_loop_terminates_on_script:
  "(responses \<noteq> [] \<and> snd (last responses) = [] \<and> 2 * length responses \<le> recursion_limit \<longrightarrow>
      (\<exists>final c.
         build_workflow recursion_limit (scripted responses) run [HumanMessage question] =
           Some (Inr (map message_obj final)) \<and>
         last final = AIMessage c [] \<and>
         prefix [HumanMessage question] final \<and>
         length (filter is_ai final) \<le> length responses)) \<and>
   (\<exists>outcome. build_workflow recursion_limit llm_with_tools run [HumanMessage question] = Some outcome) \<and>
   (keeps_requesting llm_with_tools \<and> 1 \<le> recursion_limit \<longrightarrow>
      build_workflow recursion_limit llm_with_tools run [HumanMessage question] =
        Some (Inl GraphRecursionError))"
proof (intro conjI impI)
  assume a: "responses \<noteq> [] \<and> snd (last responses) = [] \<and> 2 * length responses \<le> recursion_limit"
  then have p: "responses \<noteq> []" "snd (last responses) = []" "2 * length responses \<le> recursion_limit"
    by simp_all
  have "length responses - 0 = length responses" "length (filter is_ai [HumanMessage question]) = 0"
    "0 < length responses" "(0::nat) \<le> 2 * 0"
    using p(1) by simp_all
  from scripted_terminates [OF p this]
  obtain final c where f:
    "run_graph recursion_limit (scripted responses) run 0 Agent [HumanMessage question] = Inr final"
    "last final = AIMessage c []" "prefix [HumanMessage question] final"
    "length (filter is_ai final) \<le> length responses"
    by blast
  from p(1,3) have "\<not> recursion_limit < 1" by (cases responses) auto
  with f(1) have "build_workflow recursion_limit (scripted responses) run [HumanMessage question] =
      Some (Inr (map message_obj final))"
    by (simp add: build_workflow_def invoke_def add_messages_def)
  with f(2-4) show "\<exists>final c.
         build_workflow recursion_limit (scripted responses) run [HumanMessage question] =
           Some (Inr (map message_obj final)) \<and>
         last final = AIMessage c [] \<and>
         prefix [HumanMessage question] final \<and>
         length (filter is_ai final) \<le> length responses"
    by blast
next
  show "\<exists>outcome. build_workflow recursion_limit llm_with_tools run [HumanMessage question] = Some outcome"
    by (simp add: build_workflow_def split: sum.splits)
next
  assume "keeps_requesting llm_with_tools \<and> 1 \<le> recursion_limit"
  then show "build_workflow recursion_limit llm_with_tools run [HumanMessage question] =
      Some (Inl GraphRecursionError)"
    by (simp add: build_workflow_def invoke_def add_messages_def keeps_requesting_stopped)
qed

theorem agent_loop_terminates_on_script_witness:
  "two_turns \<noteq> [] \<and> snd (last two_turns) = [] \<and> 2 * length two_turns \<le> (25::nat) \<and>
   build_workflow 25 (scripted two_turns) no_results [HumanMessage ''q''] =
     Some (Inr (map message_obj
       [HumanMessage ''q'', AIMessage [] [web_search_request 0], ToolMessage ''[]'' ''c'',
        AIMessage ''answer'' []])) \<and>
   keeps_requesting always_tools \<and>
   build_workflow 25 always_tools no_results [HumanMessage ''q''] = Some (Inl GraphRecursionError)"
proof -
  have a: "two_turns \<noteq> []" and b: "snd (last two_turns) = []"
    and c: "2 * length two_turns \<le> (25::nat)"
    by (simp_all add: two_turns_def)
  have k: "keeps_requesting always_tools"
    by (simp add: keeps_requesting_def always_tools_def)
  have "run_graph 25 (scripted two_turns) no_results 0 Agent [HumanMessage ''q''] =
      Inr [HumanMessage ''q'', AIMessage [] [web_search_request 0], ToolMessage ''[]'' ''c'',
           AIMessage ''answer'' []]"
    by code_simp
  then have e: "build_workflow 25 (scripted two_turns) no_results [HumanMessage ''q''] =
     Some (Inr (map message_obj
       [HumanMessage ''q'', AIMessage [] [web_search_request 0], ToolMessage ''[]'' ''c'',
        AIMessage ''answer'' []]))"
    by (simp add: build_workflow_def invoke_def add_messages_def)
  show ?thesis
    using a b c e k
      agent_loop_terminates_on_script [of two_turns 25 no_results "''q''" always_tools]
    by simp
qed

end
